theory Spec2Isabelle
  imports Main "HOL-Library.Word"
begin

unbundle bit_operations_syntax

section \<open>Error values\<close>

text \<open>
  A Go \<^verbatim>\<open>error\<close> is either \<^verbatim>\<open>nil\<close> (here \<open>None\<close> of an option) or a value
  with a root error, a message and detail strings. The root is the identity of the
  underlying sentinel value; \<^verbatim>\<open>errors.Root(err) == validation.ErrBadTx\<close> compares it.
\<close>

datatype base_error =
    asset_ErrBadTxTemplate
  | asset_ErrRejected
  | validation_ErrBadTx
  | context_Canceled
  | context_DeadlineExceeded
  | other_error string

record error =
  root :: base_error
  msg :: string
  detail :: "string list"

text \<open>
  Modelled from the spec: package \<^verbatim>\<open>chain/errors\<close> is not among the sources. \<open>Wrap\<close>
  puts a context message in front and keeps root and detail ("errors propagate with wrapped
  detail strings identifying the failing stage"); \<open>WithDetail\<close> does the same and records
  the text as detail ("carrying the validation engine's detail string"); \<open>Root\<close> and
  \<open>Detail\<close> read them back. Wrapping \<^verbatim>\<open>nil\<close> gives \<^verbatim>\<open>nil\<close>: callers below apply
  these functions under \<open>map_option\<close> or in the non-nil branch only.
\<close>

definition errors_New :: "base_error \<Rightarrow> string \<Rightarrow> error" where
  "errors_New b text = \<lparr>root = b, msg = text, detail = []\<rparr>"

definition Root :: "error \<Rightarrow> base_error" where
  "Root e = root e"

definition Error :: "error \<Rightarrow> string" where
  "Error e = msg e"

definition Wrap :: "error \<Rightarrow> string \<Rightarrow> error" where
  "Wrap e text = (if text = [] then e else e\<lparr>msg := text @ '': '' @ msg e\<rparr>)"

definition WithDetail :: "error \<Rightarrow> string \<Rightarrow> error" where
  "WithDetail e text = (Wrap e text)\<lparr>detail := detail e @ [text]\<rparr>"

fun join_detail :: "string list \<Rightarrow> string" where
  "join_detail [] = []"
| "join_detail [d] = d"
| "join_detail (d # ds) = d @ ''; '' @ join_detail ds"

definition Detail :: "error \<Rightarrow> string" where
  "Detail e = join_detail (detail e)"

text \<open>The two sentinels declared in \<^verbatim>\<open>finalize.go\<close>.\<close>

definition ErrBadTxTemplate :: error where
  "ErrBadTxTemplate = errors_New asset_ErrBadTxTemplate ''bad transaction template''"

definition ErrRejected :: error where
  "ErrRejected = errors_New asset_ErrRejected ''transaction rejected''"

text \<open>
  \<^verbatim>\<open>ctx.Err()\<close> of a completed context is one of the two values of package
  \<^verbatim>\<open>context\<close>.
\<close>

datatype ctx_error = Canceled | DeadlineExceeded

fun ctx_Err :: "ctx_error \<Rightarrow> error" where
  "ctx_Err Canceled = errors_New context_Canceled ''context canceled''"
| "ctx_Err DeadlineExceeded = errors_New context_DeadlineExceeded ''context deadline exceeded''"

text \<open>Decimal rendering of a block height, for the \<^verbatim>\<open>%d\<close> of \<^verbatim>\<open>Wrapf\<close>.\<close>

fun decimal :: "nat \<Rightarrow> string" where
  "decimal n =
     (if n < 10 then [char_of (48 + n)]
      else decimal (n div 10) @ [char_of (48 + n mod 10)])"

declare decimal.simps [simp del]


section \<open>Transactions, templates and blocks\<close>

text \<open>
  A \<^verbatim>\<open>bc.Hash\<close> is represented by the text \<^verbatim>\<open>Hash.String()\<close> renders it to, the
  form in which the account-UTXO store keys its rows.
\<close>

type_synonym hash = string

definition Hash_String :: "hash \<Rightarrow> string" where
  "Hash_String h = h"

record outpoint =
  Outpoint_Hash :: hash
  Outpoint_Index :: "32 word"

text \<open>
  \<^verbatim>\<open>IsIssuance\<close> is a method of \<^verbatim>\<open>bc.TxInput\<close> defined outside the sources; its
  result is a field of the input here.
\<close>

record txinput =
  Previous :: outpoint
  IsIssuance :: bool

record txoutput =
  AssetID :: string
  Amount :: "64 word"
  Script :: "8 word list"
  Metadata :: "8 word list"

record txdata =
  Inputs :: "txinput list"
  Outputs :: "txoutput list"

record tx = txdata +
  Hash :: hash

text \<open>
  \<^verbatim>\<open>txbuilder.Template\<close>: the unsigned skeleton and one entry of signature data per
  input. What an entry holds is the business of \<^verbatim>\<open>txbuilder\<close>.
\<close>

record 'sig template =
  Unsigned :: txdata
  Template_Inputs :: "'sig list"

record block =
  Height :: "64 word"
  Transactions :: "tx list"

text \<open>
  \<^verbatim>\<open>txdb.Output\<close> embeds the transaction output and its outpoint and adds the account
  data. \<^verbatim>\<open>AddrIndex\<close> is a two-element array.
\<close>

record txdb_Output = txoutput +
  Outpoint :: outpoint
  ManagerNodeID :: string
  AccountID :: string
  AddrIndex :: "32 word \<times> 32 word"


section \<open>The derivation index key\<close>

text \<open>
  \<^verbatim>\<open>int64(i[0])<<31 | int64(i[1]&0x7fffffff)\<close>. Indexing a slice with fewer than two
  elements panics: \<open>None\<close>.
\<close>

fun toKeyIndex :: "32 word list \<Rightarrow> 64 word option" where
  "toKeyIndex (i0 # i1 # rest) =
     Some (push_bit 31 (ucast i0 :: 64 word) OR ucast (i1 AND 0x7fffffff))"
| "toKeyIndex _ = None"


section \<open>The account-UTXO store\<close>

text \<open>
  One row of table \<^verbatim>\<open>account_utxos\<close>, with the columns the statements of
  \<^verbatim>\<open>finalize.go\<close> name. The table is a list of rows; the uniqueness of
  \<open>(tx_hash, index)\<close> is an invariant of the list, not of the type.
\<close>

record utxo_row =
  tx_hash :: string
  index :: "32 word"
  asset_id :: string
  amount :: "64 word"
  manager_node_id :: string
  account_id :: string
  addr_index :: "64 word"
  script :: "8 word list"
  metadata :: "8 word list"
  spent_in_pool :: bool
  confirmed_in :: "64 word option"
  block_pos :: "32 word option"

definition utxo_key :: "utxo_row \<Rightarrow> string \<times> 32 word" where
  "utxo_key r = (tx_hash r, index r)"

definition unique_keys :: "utxo_row list \<Rightarrow> bool" where
  "unique_keys tbl = distinct (map utxo_key tbl)"

datatype log_value = LogString string | LogHeight "64 word" | LogError error

type_synonym log_entry = "(string \<times> log_value) list"

text \<open>
  The state the indexer works on: the table, what the database connection will answer to
  the coming statements (\<open>Some e\<close>: the statement fails with \<open>e\<close> and changes nothing;
  an exhausted list: no further failure), and the lines written by \<^verbatim>\<open>chainlog\<close>.
\<close>

record world =
  account_utxos :: "utxo_row list"
  pg_faults :: "error option list"
  chainlog :: "log_entry list"

text \<open>\<^verbatim>\<open>pg.Exec\<close> of a statement whose effect on the table is \<open>stmt\<close>.\<close>

definition pg_Exec :: "(utxo_row list \<Rightarrow> utxo_row list) \<Rightarrow> world \<Rightarrow> error option \<times> world" where
  "pg_Exec stmt w =
     (case pg_faults w of
        [] \<Rightarrow> (None, w\<lparr>account_utxos := stmt (account_utxos w)\<rparr>)
      | None # fs \<Rightarrow> (None, w\<lparr>account_utxos := stmt (account_utxos w), pg_faults := fs\<rparr>)
      | Some e # fs \<Rightarrow> (Some e, w\<lparr>pg_faults := fs\<rparr>))"

text \<open>
  \<^verbatim>\<open>pg.Exec\<close> of a statement the database can refuse by itself: the statement is
  atomic, so a refused statement changes nothing and its error is the result.
\<close>

definition pg_Exec_stmt ::
  "(utxo_row list \<Rightarrow> error + utxo_row list) \<Rightarrow> world \<Rightarrow> error option \<times> world" where
  "pg_Exec_stmt stmt w =
     (let run = (\<lambda>fs. case stmt (account_utxos w) of
                         Inl e \<Rightarrow> (Some e, w\<lparr>pg_faults := fs\<rparr>)
                       | Inr tbl \<Rightarrow> (None, w\<lparr>account_utxos := tbl, pg_faults := fs\<rparr>))
      in case pg_faults w of
           [] \<Rightarrow> run []
         | None # fs \<Rightarrow> run fs
         | Some e # fs \<Rightarrow> (Some e, w\<lparr>pg_faults := fs\<rparr>))"

text \<open>
  The unique index on \<open>(tx_hash, index)\<close>: adding a row whose key is in the table is
  refused with a unique violation.
\<close>

definition unique_violation :: error where
  "unique_violation =
     errors_New (other_error ''unique_violation'')
       ''pq: duplicate key value violates unique constraint''"

definition index_insert :: "utxo_row \<Rightarrow> utxo_row list \<Rightarrow> error + utxo_row list" where
  "index_insert r tbl =
     (if utxo_key r \<in> set (map utxo_key tbl) then Inl unique_violation else Inr (tbl @ [r]))"

text \<open>
  \<^verbatim>\<open>INSERT INTO account_utxos ... SELECT * FROM outputs\<close>, row by row. Without a
  conflict clause the first row the index refuses fails the statement; with
  \<^verbatim>\<open>ON CONFLICT (tx_hash, index) DO NOTHING\<close>, the clause of \<^verbatim>\<open>insertAccountOutputs\<close>,
  that row is skipped, be its key in the table from before or from an earlier row of the
  same statement.
\<close>

datatype conflict_clause = NoConflictClause | OnConflictDoNothing

fun sql_insert :: "conflict_clause \<Rightarrow> utxo_row list \<Rightarrow> utxo_row list \<Rightarrow> error + utxo_row list" where
  "sql_insert clause [] tbl = Inr tbl"
| "sql_insert clause (r # rs) tbl =
     (case index_insert r tbl of
        Inr tbl' \<Rightarrow> sql_insert clause rs tbl'
      | Inl e \<Rightarrow>
          (case clause of
             OnConflictDoNothing \<Rightarrow> sql_insert clause rs tbl
           | NoConflictClause \<Rightarrow> Inl e))"

text \<open>
  \<^verbatim>\<open>UPDATE account_utxos SET spent_in_pool=$1 WHERE (tx_hash, index) IN (...)\<close>.
\<close>

definition sql_mark_spent :: "bool \<Rightarrow> (string \<times> 32 word) list \<Rightarrow> utxo_row list \<Rightarrow> utxo_row list" where
  "sql_mark_spent spent keys tbl =
     map (\<lambda>r. if utxo_key r \<in> set keys then r\<lparr>spent_in_pool := spent\<rparr> else r) tbl"

text \<open>
  \<^verbatim>\<open>UPDATE account_utxos SET confirmed_in=$3, block_pos=pos FROM (...) t WHERE tx_hash=txhash\<close>.
\<close>

definition sql_confirm :: "(string \<times> 32 word) list \<Rightarrow> 64 word \<Rightarrow> utxo_row list \<Rightarrow> utxo_row list" where
  "sql_confirm t height tbl =
     map (\<lambda>r. case map_of t (tx_hash r) of
                 None \<Rightarrow> r
               | Some pos \<Rightarrow> r\<lparr>confirmed_in := Some height, block_pos := Some pos\<rparr>) tbl"

text \<open>
  The row \<^verbatim>\<open>insertAccountOutputs\<close> proposes for one output: the nine parallel arrays
  of the source, one element each, as \<^verbatim>\<open>unnest\<close> lines them up. The columns the
  statement does not name take their defaults. \<^verbatim>\<open>out.AddrIndex[:]\<close> has two elements,
  so \<open>toKeyIndex\<close> does not panic and the \<open>None\<close> branch is never taken.
\<close>

definition output_row :: "txdb_Output \<Rightarrow> utxo_row" where
  "output_row out =
     \<lparr>tx_hash = Hash_String (Outpoint_Hash (Outpoint out)),
      index = Outpoint_Index (Outpoint out),
      asset_id = AssetID out,
      amount = Amount out,
      manager_node_id = ManagerNodeID out,
      account_id = AccountID out,
      addr_index =
        (case toKeyIndex [fst (AddrIndex out), snd (AddrIndex out)] of
           Some k \<Rightarrow> k
         | None \<Rightarrow> 0),
      script = Script out,
      metadata = Metadata out,
      spent_in_pool = False,
      confirmed_in = None,
      block_pos = None\<rparr>"

definition insertAccountOutputs :: "txdb_Output list \<Rightarrow> world \<Rightarrow> error option \<times> world" where
  "insertAccountOutputs outs w =
     (case pg_Exec_stmt (sql_insert OnConflictDoNothing (map output_row outs)) w of
        (err, w') \<Rightarrow> (map_option (\<lambda>e. Wrap e []) err, w'))"

text \<open>The outpoints \<^verbatim>\<open>markPrevSpentInPool\<close> collects: every non-issuance input.\<close>

definition prevouts :: "tx list \<Rightarrow> (string \<times> 32 word) list" where
  "prevouts txs =
     concat (map (\<lambda>t. map (\<lambda>i. (Hash_String (Outpoint_Hash (Previous i)),
                                   Outpoint_Index (Previous i)))
                         (filter (\<lambda>i. \<not> IsIssuance i) (Inputs t))) txs)"

definition markPrevSpentInPool :: "bool \<Rightarrow> tx list \<Rightarrow> world \<Rightarrow> error option \<times> world" where
  "markPrevSpentInPool spent txs w = pg_Exec (sql_mark_spent spent (prevouts txs)) w"

definition log_Write :: "log_entry \<Rightarrow> world \<Rightarrow> world" where
  "log_Write entry w = w\<lparr>chainlog := chainlog w @ [entry]\<rparr>"

definition block_positions :: "block \<Rightarrow> (string \<times> 32 word) list" where
  "block_positions b =
     zip (map (\<lambda>t. Hash_String (Hash t)) (Transactions b))
         (map word_of_nat [0 ..< length (Transactions b)])"

text \<open>The two lines \<^verbatim>\<open>addBlock\<close> writes to the log when a statement fails.\<close>

definition confirm_failure_entry :: "block \<Rightarrow> error \<Rightarrow> log_entry" where
  "confirm_failure_entry b e =
     [(''at'', LogString ''account utxos indexing block''),
      (''block'', LogHeight (Height b)),
      (''error'', LogError (Wrap e []))]"

definition release_failure_entry :: "block \<Rightarrow> error \<Rightarrow> log_entry" where
  "release_failure_entry b e =
     [(''block'', LogHeight (Height b)), (''error'', LogError (Wrap e []))]"

definition addBlock :: "block \<Rightarrow> tx list \<Rightarrow> world \<Rightarrow> world" where
  "addBlock b conflicts w =
     (case pg_Exec (sql_confirm (block_positions b) (Height b)) w of
        (err, w1) \<Rightarrow>
          (let w2 = (case err of
                       Some e \<Rightarrow> log_Write (confirm_failure_entry b e) w1
                     | None \<Rightarrow> w1)
           in case markPrevSpentInPool False conflicts w2 of
                (err', w3) \<Rightarrow>
                  (case err' of
                     Some e \<Rightarrow> log_Write (release_failure_entry b e) w3
                   | None \<Rightarrow> w3)))"


section \<open>Finalizing a transaction\<close>

text \<open>
  What the pipeline calls outside this file, in the order of the calls. The Ledger Engine,
  the signature assembly of \<^verbatim>\<open>txbuilder\<close>, the Generator client and the caller's
  context are given by their answers.
\<close>

datatype effect =
    LatestBlockCalled
  | AssembleSignaturesCalled
  | AddTxCalled hash
  | SubmitCalled hash
  | Logged error
  | WaitForBlockCalled "64 word"
  | GetTxsCalled hash

text \<open>
  What one \<^verbatim>\<open>select\<close> of the waiter receives: the context is done, or the wait for
  the block returned an error, or the block landed and \<^verbatim>\<open>GetTxs\<close> answers with an
  error or the pool and chain transactions. When the context is done and the block channel
  is ready at the same \<^verbatim>\<open>select\<close>, Go takes either: \<open>CtxDone\<close> when it takes the
  context, and one of the two \<open>Raced\<close> events, which keep the error of the completed
  context, when it takes the block channel.
\<close>

datatype event =
    CtxDone ctx_error
  | WaitFailed error
  | Landed "error + (hash \<rightharpoonup> tx) \<times> (hash \<rightharpoonup> tx)"
  | RacedWaitFailed ctx_error error
  | RacedLanded ctx_error "error + (hash \<rightharpoonup> tx) \<times> (hash \<rightharpoonup> tx)"

record 'sig env =
  LatestBlock :: "error + block option"
  AssembleSignatures :: "'sig template \<Rightarrow> error + tx"
  AddTx :: "tx \<Rightarrow> error option"
  Generator :: "string option"
  Submit :: "tx \<Rightarrow> error option"
  MarshalText :: "tx \<Rightarrow> error + string"
  events :: "event list"

definition publishTx :: "'sig env \<Rightarrow> tx \<Rightarrow> error option \<times> effect list" where
  "publishTx env m =
     (case AddTx env m of
        Some err \<Rightarrow>
          if Root err = validation_ErrBadTx
          then (Some (WithDetail (Wrap ErrBadTxTemplate (Error err)) (Detail err)),
                [AddTxCalled (Hash m)])
          else (Some (Wrap err ''add tx to blockchain''), [AddTxCalled (Hash m)])
      | None \<Rightarrow>
          if Generator env \<noteq> None \<and> Generator env \<noteq> Some []
          then (case Submit env m of
                  Some e \<Rightarrow>
                    (let err = Wrap e ''generator transaction notice''
                     in (Some err, [AddTxCalled (Hash m), SubmitCalled (Hash m), Logged err]))
                | None \<Rightarrow> (None, [AddTxCalled (Hash m), SubmitCalled (Hash m)]))
          else (None, [AddTxCalled (Hash m)]))"

definition FinalizeTx :: "'sig env \<Rightarrow> 'sig template \<Rightarrow> (error + tx) \<times> effect list" where
  "FinalizeTx env txTemplate =
     (if length (Template_Inputs txTemplate) > length (Inputs (Unsigned txTemplate))
      then (Inl (WithDetail ErrBadTxTemplate ''too many inputs in template''), [])
      else case AssembleSignatures env txTemplate of
             Inl err \<Rightarrow>
               (Inl (WithDetail ErrBadTxTemplate (Error err)), [AssembleSignaturesCalled])
           | Inr m \<Rightarrow>
               (case publishTx env m of
                  (Some err, effs) \<Rightarrow>
                    (case MarshalText env m of
                       Inl err2 \<Rightarrow> (Inl err, AssembleSignaturesCalled # effs)
                     | Inr rawtx \<Rightarrow>
                         (Inl (Wrap err (''tx='' @ rawtx)), AssembleSignaturesCalled # effs))
                | (None, effs) \<Rightarrow> (Inr m, AssembleSignaturesCalled # effs)))"

text \<open>
  The loop of \<^verbatim>\<open>FinalizeTxWait\<close>, from the height reached so far. Each turn increments
  the height, starts the wait for that block and selects. With no event left the waiter
  stays suspended in \<^verbatim>\<open>select\<close> and the call does not return: \<open>None\<close>.
\<close>

fun waitLoop :: "tx \<Rightarrow> 64 word \<Rightarrow> event list \<Rightarrow> (error + tx) option \<times> effect list" where
  "waitLoop t height [] = (None, [WaitForBlockCalled (height + 1)])"
| "waitLoop t height (CtxDone ce # evs) =
     (Some (Inl (ctx_Err ce)), [WaitForBlockCalled (height + 1)])"
| "waitLoop t height (WaitFailed err # evs) =
     (Some (Inl (Wrap err (''waiting for block '' @ decimal (unat (height + 1))))),
      [WaitForBlockCalled (height + 1)])"
| "waitLoop t height (Landed (Inl err) # evs) =
     (Some (Inl (Wrap err ''getting pool/bc txs'')),
      [WaitForBlockCalled (height + 1), GetTxsCalled (Hash t)])"
| "waitLoop t height (Landed (Inr (poolTxs, bcTxs)) # evs) =
     (if bcTxs (Hash t) \<noteq> None
      then (Some (Inr t), [WaitForBlockCalled (height + 1), GetTxsCalled (Hash t)])
      else if poolTxs (Hash t) = None
      then (Some (Inl ErrRejected), [WaitForBlockCalled (height + 1), GetTxsCalled (Hash t)])
      else (case waitLoop t (height + 1) evs of
              (res, effs) \<Rightarrow>
                (res, WaitForBlockCalled (height + 1) # GetTxsCalled (Hash t) # effs)))"
| "waitLoop t height (RacedWaitFailed ce err # evs) =
     (Some (Inl (Wrap err (''waiting for block '' @ decimal (unat (height + 1))))),
      [WaitForBlockCalled (height + 1)])"
| "waitLoop t height (RacedLanded ce (Inl err) # evs) =
     (Some (Inl (Wrap err ''getting pool/bc txs'')),
      [WaitForBlockCalled (height + 1), GetTxsCalled (Hash t)])"
| "waitLoop t height (RacedLanded ce (Inr (poolTxs, bcTxs)) # evs) =
     (if bcTxs (Hash t) \<noteq> None
      then (Some (Inr t), [WaitForBlockCalled (height + 1), GetTxsCalled (Hash t)])
      else if poolTxs (Hash t) = None
      then (Some (Inl ErrRejected), [WaitForBlockCalled (height + 1), GetTxsCalled (Hash t)])
      else (case waitLoop t (height + 1) evs of
              (res, effs) \<Rightarrow>
                (res, WaitForBlockCalled (height + 1) # GetTxsCalled (Hash t) # effs)))"

text \<open>
  The height \<^verbatim>\<open>FinalizeTxWait\<close> starts from: \<^verbatim>\<open>var height uint64\<close>, set to the
  height of the latest block when there is one.
\<close>

definition captured_height :: "block option \<Rightarrow> 64 word" where
  "captured_height b = (case b of None \<Rightarrow> 0 | Some blk \<Rightarrow> Height blk)"

definition FinalizeTxWait :: "'sig env \<Rightarrow> 'sig template \<Rightarrow> (error + tx) option \<times> effect list" where
  "FinalizeTxWait env txTemplate =
     (case LatestBlock env of
        Inl err \<Rightarrow> (Some (Inl (Wrap err ''getting latest block'')), [LatestBlockCalled])
      | Inr b \<Rightarrow>
          (let height = captured_height b
           in case FinalizeTx env txTemplate of
                (Inl err, effs) \<Rightarrow> (Some (Inl err), LatestBlockCalled # effs)
              | (Inr t, effs) \<Rightarrow>
                  (case waitLoop t height (events env) of
                     (res, effs') \<Rightarrow> (res, LatestBlockCalled # effs @ effs'))))"


section \<open>Notions used in the statements\<close>

text \<open>The connection answers the next \<open>n\<close> statements without a failure.\<close>

definition db_healthy :: "nat \<Rightarrow> world \<Rightarrow> bool" where
  "db_healthy n w = list_all (\<lambda>f. f = None) (take n (pg_faults w))"

text \<open>What the connection answers to the statement after the next \<open>n\<close>.\<close>

definition nth_fault :: "nat \<Rightarrow> world \<Rightarrow> error option" where
  "nth_fault n w = (case drop n (pg_faults w) of [] \<Rightarrow> None | f # fs \<Rightarrow> f)"

text \<open>
  A landed block that leaves the transaction pending: \<^verbatim>\<open>GetTxs\<close> finds it in the pool
  and not in the chain.
\<close>

fun pending :: "tx \<Rightarrow> event \<Rightarrow> bool" where
  "pending t (Landed (Inr (poolTxs, bcTxs))) =
     (bcTxs (Hash t) = None \<and> poolTxs (Hash t) \<noteq> None)"
| "pending t _ = False"

text \<open>
  A \<^verbatim>\<open>select\<close> that takes a landed block and leaves the transaction undecided,
  whether the context was done by then or not.
\<close>

fun undecided :: "tx \<Rightarrow> event \<Rightarrow> bool" where
  "undecided t (Landed (Inr (poolTxs, bcTxs))) =
     (bcTxs (Hash t) = None \<and> poolTxs (Hash t) \<noteq> None)"
| "undecided t (RacedLanded ce (Inr (poolTxs, bcTxs))) =
     (bcTxs (Hash t) = None \<and> poolTxs (Hash t) \<noteq> None)"
| "undecided t _ = False"

text \<open>The error of the caller's context when it is done at the \<^verbatim>\<open>select\<close> of an event.\<close>

fun ctx_completed :: "event \<Rightarrow> ctx_error option" where
  "ctx_completed (CtxDone ce) = Some ce"
| "ctx_completed (RacedWaitFailed ce err) = Some ce"
| "ctx_completed (RacedLanded ce r) = Some ce"
| "ctx_completed _ = None"

text \<open>The key under which the store holds an outpoint.\<close>

definition outpoint_key :: "outpoint \<Rightarrow> string \<times> 32 word" where
  "outpoint_key p = (Hash_String (Outpoint_Hash p), Outpoint_Index p)"

text \<open>
  The table an insertion leaves when it skips every row whose key is taken: a device of
  the proofs about \<open>sql_insert\<close>.
\<close>

fun skip_taken :: "utxo_row list \<Rightarrow> utxo_row list \<Rightarrow> utxo_row list" where
  "skip_taken [] tbl = tbl"
| "skip_taken (r # rs) tbl =
     skip_taken rs (if utxo_key r \<in> set (map utxo_key tbl) then tbl else tbl @ [r])"

text \<open>The calls of \<open>n\<close> turns of the loop that each see a block land, from height \<open>h\<close>.\<close>

fun polls :: "tx \<Rightarrow> 64 word \<Rightarrow> nat \<Rightarrow> effect list" where
  "polls t h 0 = []"
| "polls t h (Suc n) =
     WaitForBlockCalled (h + 1) # GetTxsCalled (Hash t) # polls t (h + 1) n"

text \<open>The heights waited for, in the order of the calls.\<close>

fun awaited :: "effect list \<Rightarrow> 64 word list" where
  "awaited [] = []"
| "awaited (WaitForBlockCalled h # es) = h # awaited es"
| "awaited (e # es) = awaited es"


section \<open>Sample data\<close>

definition sample_output :: txdb_Output where
  "sample_output =
     \<lparr>AssetID = ''a1'', Amount = 5, Script = [1], Metadata = [],
      Outpoint = \<lparr>Outpoint_Hash = ''aa'', Outpoint_Index = 0\<rparr>,
      ManagerNodeID = ''mn1'', AccountID = ''acc1'', AddrIndex = (1, 2)\<rparr>"

definition other_output :: txdb_Output where
  "other_output =
     \<lparr>AssetID = ''a1'', Amount = 9, Script = [2], Metadata = [],
      Outpoint = \<lparr>Outpoint_Hash = ''aa'', Outpoint_Index = 1\<rparr>,
      ManagerNodeID = ''mn1'', AccountID = ''acc2'', AddrIndex = (1, 3)\<rparr>"

definition sample_world :: world where
  "sample_world =
     \<lparr>account_utxos = [output_row sample_output], pg_faults = [], chainlog = []\<rparr>"

text \<open>The same store after another pool transaction has reserved the output.\<close>

definition marked_world :: world where
  "marked_world =
     \<lparr>account_utxos = [(output_row sample_output)\<lparr>spent_in_pool := True\<rparr>],
      pg_faults = [], chainlog = []\<rparr>"

definition sample_tx :: tx where
  "sample_tx =
     \<lparr>Inputs = [\<lparr>Previous = \<lparr>Outpoint_Hash = ''aa'', Outpoint_Index = 0\<rparr>,
                 IsIssuance = False\<rparr>],
      Outputs = [], Hash = ''bb''\<rparr>"

definition sample_template :: "nat template" where
  "sample_template =
     \<lparr>Unsigned = \<lparr>Inputs = Inputs sample_tx, Outputs = []\<rparr>, Template_Inputs = [0]\<rparr>"

definition sample_env :: "nat env" where
  "sample_env =
     \<lparr>LatestBlock = Inr (Some \<lparr>Height = 7, Transactions = []\<rparr>),
      AssembleSignatures = (\<lambda>tmpl. Inr sample_tx),
      AddTx = (\<lambda>t. None),
      Generator = None,
      Submit = (\<lambda>t. None),
      MarshalText = (\<lambda>t. Inr ''00''),
      events = [Landed (Inr ([''bb'' \<mapsto> sample_tx], Map.empty)),
                Landed (Inr (Map.empty, [''bb'' \<mapsto> sample_tx]))]\<rparr>"

definition invalid_tx_error :: error where
  "invalid_tx_error =
     \<lparr>root = validation_ErrBadTx, msg = ''invalid transaction: bad signature'',
      detail = [''bad signature'']\<rparr>"

definition connection_error :: error where
  "connection_error = errors_New (other_error ''connection refused'') ''connection refused''"



section \<open>The derivation index key: properties\<close>

lemma mask31: "(0x7fffffff :: 32 word) = mask 31"
  by (simp add: mask_eq_exp_minus_1)

lemma keyIndex_uint:
  "uint (push_bit 31 (ucast (hi :: 32 word) :: 64 word) OR ucast (lo AND mask 31 :: 32 word))
     = uint hi * 2 ^ 31 + uint lo mod 2 ^ 31"
proof -
  let ?a = "push_bit 31 (ucast hi :: 64 word)"
  let ?b = "ucast (lo AND mask 31 :: 32 word) :: 64 word"
  have disj: "?a OR ?b = ?a + ?b"
    by (rule disjunctive_add [symmetric]) (auto simp: bit_simps)
  have hi_lt: "uint hi < 2 ^ 32"
    using uint_bounded [of hi] by simp
  have uc: "uint (ucast hi :: 64 word) = uint hi"
    by (simp add: uint_up_ucast is_up)
  have ua: "uint ?a = uint hi * 2 ^ 31"
  proof -
    have "uint ?a = (uint hi * 2 ^ 31) mod 2 ^ 64"
      by (simp add: push_bit_eq_mult uint_word_ariths uc)
    also have "\<dots> = uint hi * 2 ^ 31"
      using hi_lt by (intro mod_pos_pos_trivial) auto
    finally show ?thesis .
  qed
  have ub: "uint ?b = uint lo mod 2 ^ 31"
  proof -
    have "uint ?b = uint (take_bit 31 lo)"
      by (simp add: uint_up_ucast is_up take_bit_eq_mask)
    also have "\<dots> = take_bit 31 (uint lo)"
      by (rule unsigned_take_bit_eq)
    also have "\<dots> = uint lo mod 2 ^ 31"
      by (rule take_bit_eq_mod)
    finally show ?thesis .
  qed
  have lt: "uint ?a + uint ?b < 2 ^ 64"
  proof -
    have "uint lo mod 2 ^ 31 < 2 ^ 31" by simp
    moreover have "uint hi * 2 ^ 31 \<le> (2 ^ 32 - 1) * 2 ^ 31"
      using hi_lt by (intro mult_right_mono) auto
    ultimately show ?thesis unfolding ua ub by simp
  qed
  have "uint (?a + ?b) = uint ?a + uint ?b"
  proof -
    have "uint ?a + uint ?b < 2 ^ LENGTH(64)" using lt by simp
    then show ?thesis by (simp only: uint_add_lem)
  qed
  then show ?thesis by (simp add: disj ua ub)
qed

lemma keyIndex_bound:
  "uint (hi :: 32 word) * 2 ^ 31 + uint (lo :: 32 word) mod 2 ^ 31 < 2 ^ 63"
proof -
  have "uint hi < 2 ^ 32" using uint_bounded [of hi] by simp
  then have "uint hi * 2 ^ 31 \<le> (2 ^ 32 - 1) * 2 ^ 31" by (intro mult_right_mono) auto
  moreover have "uint lo mod 2 ^ 31 < 2 ^ 31" by simp
  ultimately show ?thesis by simp
qed

lemma sint_eq_uint_small: "uint (w :: 64 word) < 2 ^ 63 \<Longrightarrow> sint w = uint w"
proof -
  assume a: "uint w < 2 ^ 63"
  have "- (2 ^ 63) \<le> uint w"
    by (rule order_trans [of _ 0]) simp_all
  then have "signed_take_bit 63 (uint w) = uint w"
    using a by (rule signed_take_bit_int_eq_self)
  then show ?thesis by (simp add: sint_uint)
qed

lemma keyIndex_bits:
  "bit (push_bit 31 (ucast (hi :: 32 word) :: 64 word) OR ucast (lo AND mask 31 :: 32 word)) n
     = (if n < 31 then bit lo n else n < 63 \<and> bit hi (n - 31))"
  by (auto simp: bit_simps dest: bit_imp_le_length)

text \<open>
  C9, as the code has it. For every pair of 32-bit path components \<open>(high, low)\<close>,
  \<open>toKeyIndex\<close> returns a non-negative 63-bit integer: bits 0 to 30 are those of the low
  component, bits 31 to 62 are the 32 bits of the high component, and bit 63 is clear. Its
  value as an \<^verbatim>\<open>int64\<close> is \<open>high * 2^31 + (low mod 2^31)\<close>.
\<close>

theorem toKeyIndex_packs:
  "\<exists>k. toKeyIndex [high, low] = Some k
     \<and> sint k = uint high * 2 ^ 31 + uint low mod 2 ^ 31
     \<and> 0 \<le> sint k \<and> sint k < 2 ^ 63
     \<and> (\<forall>n. bit k n = (if n < 31 then bit low n else n < 63 \<and> bit high (n - 31)))"
proof -
  let ?k = "push_bit 31 (ucast high :: 64 word) OR ucast (low AND mask 31)"
  have u: "uint ?k = uint high * 2 ^ 31 + uint low mod 2 ^ 31"
    by (rule keyIndex_uint)
  have s: "sint ?k = uint ?k"
    by (rule sint_eq_uint_small) (simp only: u keyIndex_bound)
  have "0 \<le> uint ?k" by simp
  then show ?thesis
    using keyIndex_bound [of high low] keyIndex_bits [of high low]
    by (simp add: mask31 s u)
qed

text \<open>
  C9, as the specification words it (the high component in bits 32 to 62, the value
  \<open>high * 2^32 + (low mod 2^31)\<close>), fails for the components \<open>(1, 0)\<close>: the key is
  \<open>2^31\<close>, not \<open>2^32\<close>.
\<close>

theorem toKeyIndex_shift32_counterexample:
  "toKeyIndex [1, 0] = Some 2147483648
     \<and> sint (2147483648 :: 64 word) \<noteq> uint (1 :: 32 word) * 2 ^ 32 + uint (0 :: 32 word) mod 2 ^ 31"
  by simp

theorem toKeyIndex_packs_witness:
  "\<exists>k. toKeyIndex [3, 0x80000005] = Some k \<and> sint k = 6442450949"
  using toKeyIndex_packs [of 3 "0x80000005"] by auto


section \<open>The account-UTXO store: properties\<close>

lemma pg_Exec_healthy:
  assumes "db_healthy (Suc n) w"
  shows "\<exists>w'. pg_Exec stmt w = (None, w') \<and> account_utxos w' = stmt (account_utxos w)
           \<and> chainlog w' = chainlog w \<and> db_healthy n w'"
proof (cases "pg_faults w")
  case Nil
  then show ?thesis by (simp add: db_healthy_def pg_Exec_def)
next
  case (Cons f fs)
  with assms have f: "f = None" and "list_all (\<lambda>f. f = None) (take n fs)"
    by (simp_all add: db_healthy_def)
  with Cons show ?thesis by (simp add: db_healthy_def pg_Exec_def)
qed

lemma pg_Exec_cases:
  "pg_Exec stmt w =
     (nth_fault 0 w,
      w\<lparr>account_utxos :=
          (if nth_fault 0 w = None then stmt (account_utxos w) else account_utxos w),
        pg_faults := drop 1 (pg_faults w)\<rparr>)"
  by (cases "pg_faults w") (auto simp: pg_Exec_def nth_fault_def split: option.splits)

lemma nth_fault_Suc:
  "pg_faults w' = drop 1 (pg_faults w) \<Longrightarrow> nth_fault 0 w' = nth_fault 1 w"
  by (simp add: nth_fault_def)

subsection \<open>Insertion\<close>

text \<open>On statements the database does not refuse, the two models of \<^verbatim>\<open>pg.Exec\<close> agree.\<close>

lemma pg_Exec_stmt_Inr: "pg_Exec_stmt (\<lambda>tbl. Inr (stmt tbl)) w = pg_Exec stmt w"
  by (cases "pg_faults w") (auto simp: pg_Exec_stmt_def pg_Exec_def split: option.splits)

lemma skip_taken_keys:
  "utxo_key ` set (skip_taken rs tbl) = utxo_key ` set tbl \<union> utxo_key ` set rs"
  by (induction rs arbitrary: tbl) auto

lemma skip_taken_unique:
  "unique_keys tbl \<Longrightarrow> unique_keys (skip_taken rs tbl)"
  by (induction rs arbitrary: tbl) (auto simp: unique_keys_def)

lemma skip_taken_extends:
  "\<exists>new. skip_taken rs tbl = tbl @ new \<and> set new \<subseteq> set rs"
proof (induction rs arbitrary: tbl)
  case Nil
  show ?case by simp
next
  case (Cons r rs)
  show ?case
  proof (cases "utxo_key r \<in> set (map utxo_key tbl)")
    case True
    from Cons.IH [of tbl] obtain new
      where "skip_taken rs tbl = tbl @ new" and "set new \<subseteq> set rs" by blast
    with True show ?thesis by auto
  next
    case False
    from Cons.IH [of "tbl @ [r]"] obtain new
      where n: "skip_taken rs (tbl @ [r]) = (tbl @ [r]) @ new" and sub: "set new \<subseteq> set rs"
      by blast
    from n False have "skip_taken (r # rs) tbl = tbl @ (r # new)" by simp
    moreover from sub have "set (r # new) \<subseteq> set (r # rs)" by auto
    ultimately show ?thesis by blast
  qed
qed

lemma skip_taken_present:
  "utxo_key ` set rs \<subseteq> utxo_key ` set tbl \<Longrightarrow> skip_taken rs tbl = tbl"
  by (induction rs arbitrary: tbl) auto

lemma skip_taken_twice:
  "skip_taken rs (skip_taken rs tbl) = skip_taken rs tbl"
  by (rule skip_taken_present) (simp add: skip_taken_keys)

text \<open>With the clause \<^verbatim>\<open>DO NOTHING\<close> the insertion is never refused.\<close>

lemma sql_insert_do_nothing:
  "sql_insert OnConflictDoNothing rs tbl = Inr (skip_taken rs tbl)"
  by (induction rs arbitrary: tbl) (simp_all add: index_insert_def)

text \<open>Without it, proposing a key of the table is refused and nothing is inserted.\<close>

lemma sql_insert_plain_refused:
  "utxo_key r \<in> utxo_key ` set tbl \<Longrightarrow>
     sql_insert NoConflictClause (r # rs) tbl = Inl unique_violation"
  by (simp add: index_insert_def)

lemma one_row_per_key:
  "distinct (map f xs) \<Longrightarrow> x \<in> set xs \<Longrightarrow> filter (\<lambda>y. f y = f x) xs = [x]"
proof (induction xs)
  case Nil
  then show ?case by simp
next
  case (Cons a xs)
  show ?case
  proof (cases "x = a")
    case True
    have "f a \<notin> f ` set xs" using Cons.prems(1) by simp
    then have "\<forall>y \<in> set xs. f y \<noteq> f a" by (metis imageI)
    then have "filter (\<lambda>y. f y = f a) xs = []"
      by (simp add: filter_empty_conv)
    with True show ?thesis by simp
  next
    case False
    with Cons.prems have x: "x \<in> set xs" by simp
    then have "f x \<in> f ` set xs" by (rule imageI)
    with Cons.prems(1) have "f a \<noteq> f x" by auto
    with Cons x show ?thesis by simp
  qed
qed

lemma output_row_key: "utxo_key (output_row out) = outpoint_key (Outpoint out)"
  by (simp add: utxo_key_def output_row_def outpoint_key_def)

lemma insertAccountOutputs_cases:
  "insertAccountOutputs outs w =
     (map_option (\<lambda>e. Wrap e []) (nth_fault 0 w),
      w\<lparr>account_utxos :=
          (if nth_fault 0 w = None then skip_taken (map output_row outs) (account_utxos w)
           else account_utxos w),
        pg_faults := drop 1 (pg_faults w)\<rparr>)"
  by (cases "pg_faults w")
    (auto simp: insertAccountOutputs_def pg_Exec_stmt_def sql_insert_do_nothing nth_fault_def
      split: option.splits)

lemma insertAccountOutputs_healthy:
  assumes "db_healthy (Suc n) w"
  shows "\<exists>w'. insertAccountOutputs outs w = (None, w')
           \<and> account_utxos w' = skip_taken (map output_row outs) (account_utxos w)
           \<and> db_healthy n w'"
proof (cases "pg_faults w")
  case Nil
  then show ?thesis
    by (simp add: insertAccountOutputs_cases nth_fault_def db_healthy_def)
next
  case (Cons f fs)
  with assms have "f = None" and "list_all (\<lambda>f. f = None) (take n fs)"
    by (simp_all add: db_healthy_def)
  with Cons show ?thesis
    by (simp add: insertAccountOutputs_cases nth_fault_def db_healthy_def)
qed

text \<open>
  C1. Let the keys of the table be unique. Then, for every list of outputs,
  \<^verbatim>\<open>insertAccountOutputs\<close> keeps them unique, and the only error it returns is a
  failure the database reports for the statement from outside it: a key that is taken is
  never one. When the database executes two statements, the call returns no error, and
  none when repeated with the same list; the second call leaves the table as the first
  left it; every output of the list, repeated in it or present before or not, has exactly
  one row under the key of its outpoint; an outpoint that was not in the table has the row
  of an output of the list with that outpoint; a row present before is the one row of its
  key, unchanged; and the table holds nothing but the rows from before and rows of the
  outputs.
\<close>

theorem insertAccountOutputs_idempotent:
  assumes "unique_keys (account_utxos w)"
  shows "fst (insertAccountOutputs outs w) = map_option (\<lambda>e. Wrap e []) (nth_fault 0 w)
       \<and> unique_keys (account_utxos (snd (insertAccountOutputs outs w)))
       \<and> (db_healthy 2 w \<longrightarrow>
            (\<exists>w1 w2.
               insertAccountOutputs outs w = (None, w1)
             \<and> insertAccountOutputs outs w1 = (None, w2)
             \<and> account_utxos w2 = account_utxos w1
             \<and> unique_keys (account_utxos w1)
             \<and> (\<forall>out \<in> set outs.
                   \<exists>r. filter (\<lambda>r. utxo_key r = outpoint_key (Outpoint out))
                               (account_utxos w1) = [r])
             \<and> (\<forall>out \<in> set outs.
                   outpoint_key (Outpoint out) \<notin> utxo_key ` set (account_utxos w) \<longrightarrow>
                   (\<exists>out' \<in> set outs.
                      outpoint_key (Outpoint out') = outpoint_key (Outpoint out)
                    \<and> filter (\<lambda>r. utxo_key r = outpoint_key (Outpoint out))
                               (account_utxos w1) = [output_row out']))
             \<and> (\<forall>r \<in> set (account_utxos w).
                   filter (\<lambda>r'. utxo_key r' = utxo_key r) (account_utxos w1) = [r])
             \<and> set (account_utxos w1) \<subseteq> set (account_utxos w) \<union> output_row ` set outs))"
proof -
  let ?rs = "map output_row outs"
  let ?t1 = "skip_taken ?rs (account_utxos w)"
  have err: "fst (insertAccountOutputs outs w) = map_option (\<lambda>e. Wrap e []) (nth_fault 0 w)"
    by (simp add: insertAccountOutputs_cases)
  have u1: "unique_keys ?t1" using assms by (rule skip_taken_unique)
  have uniq: "unique_keys (account_utxos (snd (insertAccountOutputs outs w)))"
    using assms u1 by (simp add: insertAccountOutputs_cases)
  have d1: "distinct (map utxo_key ?t1)" using u1 by (simp add: unique_keys_def)
  obtain new where t1_new: "?t1 = account_utxos w @ new" and new_sub: "set new \<subseteq> set ?rs"
    using skip_taken_extends by blast
  have sub: "set ?t1 \<subseteq> set (account_utxos w) \<union> output_row ` set outs"
    using new_sub by (auto simp: t1_new)
  have one: "\<exists>r. r \<in> set ?t1 \<and> filter (\<lambda>r. utxo_key r = outpoint_key (Outpoint out)) ?t1 = [r]"
    if "out \<in> set outs" for out
  proof -
    have "utxo_key (output_row out) \<in> utxo_key ` set ?t1"
      using that by (simp add: skip_taken_keys)
    then obtain r where r: "r \<in> set ?t1" and k: "utxo_key r = outpoint_key (Outpoint out)"
      by (auto simp: output_row_key)
    from one_row_per_key [OF d1 r] k r show ?thesis by auto
  qed
  have fresh: "\<exists>out' \<in> set outs. outpoint_key (Outpoint out') = outpoint_key (Outpoint out)
        \<and> filter (\<lambda>r. utxo_key r = outpoint_key (Outpoint out)) ?t1 = [output_row out']"
    if "out \<in> set outs"
      and "outpoint_key (Outpoint out) \<notin> utxo_key ` set (account_utxos w)" for out
  proof -
    from one [OF that(1)] obtain r where r: "r \<in> set ?t1"
      and f: "filter (\<lambda>r. utxo_key r = outpoint_key (Outpoint out)) ?t1 = [r]" by blast
    have "r \<in> set (filter (\<lambda>r. utxo_key r = outpoint_key (Outpoint out)) ?t1)"
      by (simp only: f) simp
    then have k: "utxo_key r = outpoint_key (Outpoint out)" by simp
    have "r \<notin> set (account_utxos w)"
    proof
      assume "r \<in> set (account_utxos w)"
      then have "utxo_key r \<in> utxo_key ` set (account_utxos w)" by (rule imageI)
      with k that(2) show False by simp
    qed
    with r sub obtain out' where o: "out' \<in> set outs" and ro: "r = output_row out'" by auto
    from k ro have "outpoint_key (Outpoint out') = outpoint_key (Outpoint out)"
      by (simp add: output_row_key)
    with o f ro show ?thesis by blast
  qed
  have old: "filter (\<lambda>r'. utxo_key r' = utxo_key r) ?t1 = [r]"
    if "r \<in> set (account_utxos w)" for r
  proof -
    from that have "r \<in> set ?t1" by (simp add: t1_new)
    from one_row_per_key [OF d1 this] show ?thesis .
  qed
  have twice: "\<exists>w1 w2.
               insertAccountOutputs outs w = (None, w1)
             \<and> insertAccountOutputs outs w1 = (None, w2)
             \<and> account_utxos w2 = account_utxos w1
             \<and> account_utxos w1 = ?t1" if h: "db_healthy 2 w"
  proof -
    have h2: "db_healthy (Suc 1) w" using h by (simp add: numeral_2_eq_2)
    from insertAccountOutputs_healthy [OF h2, of outs] obtain w1
      where e1: "insertAccountOutputs outs w = (None, w1)"
        and t1: "account_utxos w1 = ?t1" and h1: "db_healthy 1 w1" by blast
    from h1 have h1': "db_healthy (Suc 0) w1" by simp
    from insertAccountOutputs_healthy [OF h1', of outs] obtain w2
      where e2: "insertAccountOutputs outs w1 = (None, w2)"
        and t2: "account_utxos w2 = skip_taken ?rs (account_utxos w1)" by blast
    have "account_utxos w2 = account_utxos w1"
      by (simp only: t2 t1 skip_taken_twice)
    with e1 e2 t1 show ?thesis by blast
  qed
  have main: "db_healthy 2 w \<longrightarrow>
            (\<exists>w1 w2.
               insertAccountOutputs outs w = (None, w1)
             \<and> insertAccountOutputs outs w1 = (None, w2)
             \<and> account_utxos w2 = account_utxos w1
             \<and> unique_keys (account_utxos w1)
             \<and> (\<forall>out \<in> set outs.
                   \<exists>r. filter (\<lambda>r. utxo_key r = outpoint_key (Outpoint out))
                               (account_utxos w1) = [r])
             \<and> (\<forall>out \<in> set outs.
                   outpoint_key (Outpoint out) \<notin> utxo_key ` set (account_utxos w) \<longrightarrow>
                   (\<exists>out' \<in> set outs.
                      outpoint_key (Outpoint out') = outpoint_key (Outpoint out)
                    \<and> filter (\<lambda>r. utxo_key r = outpoint_key (Outpoint out))
                               (account_utxos w1) = [output_row out']))
             \<and> (\<forall>r \<in> set (account_utxos w).
                   filter (\<lambda>r'. utxo_key r' = utxo_key r) (account_utxos w1) = [r])
             \<and> set (account_utxos w1) \<subseteq> set (account_utxos w) \<union> output_row ` set outs)"
  proof
    assume "db_healthy 2 w"
    from twice [OF this] obtain w1 w2
      where e1: "insertAccountOutputs outs w = (None, w1)"
        and e2: "insertAccountOutputs outs w1 = (None, w2)"
        and same: "account_utxos w2 = account_utxos w1"
        and t1: "account_utxos w1 = ?t1" by blast
    have "\<forall>out \<in> set outs.
            \<exists>r. filter (\<lambda>r. utxo_key r = outpoint_key (Outpoint out)) ?t1 = [r]"
      using one by blast
    with e1 e2 same u1 fresh old sub
    show "\<exists>w1 w2.
               insertAccountOutputs outs w = (None, w1)
             \<and> insertAccountOutputs outs w1 = (None, w2)
             \<and> account_utxos w2 = account_utxos w1
             \<and> unique_keys (account_utxos w1)
             \<and> (\<forall>out \<in> set outs.
                   \<exists>r. filter (\<lambda>r. utxo_key r = outpoint_key (Outpoint out))
                               (account_utxos w1) = [r])
             \<and> (\<forall>out \<in> set outs.
                   outpoint_key (Outpoint out) \<notin> utxo_key ` set (account_utxos w) \<longrightarrow>
                   (\<exists>out' \<in> set outs.
                      outpoint_key (Outpoint out') = outpoint_key (Outpoint out)
                    \<and> filter (\<lambda>r. utxo_key r = outpoint_key (Outpoint out))
                               (account_utxos w1) = [output_row out']))
             \<and> (\<forall>r \<in> set (account_utxos w).
                   filter (\<lambda>r'. utxo_key r' = utxo_key r) (account_utxos w1) = [r])
             \<and> set (account_utxos w1) \<subseteq> set (account_utxos w) \<union> output_row ` set outs"
      unfolding t1 [symmetric]
      by (intro exI [of _ w1] exI [of _ w2] conjI) (simp_all add: t1)
  qed
  from err uniq main show ?thesis by (intro conjI)
qed

text \<open>
  The output \<open>(aa, 0)\<close> is in the table; \<open>(aa, 1)\<close> is not and is proposed twice. Both
  calls return no error and leave two rows, the row from before and one for \<open>(aa, 1)\<close>.
\<close>

theorem insertAccountOutputs_idempotent_witness:
  "unique_keys (account_utxos sample_world) \<and> db_healthy 2 sample_world
   \<and> insertAccountOutputs [sample_output, other_output, other_output] sample_world
       = (None, sample_world\<lparr>account_utxos := [output_row sample_output, output_row other_output]\<rparr>)
   \<and> insertAccountOutputs [sample_output, other_output, other_output]
        (sample_world\<lparr>account_utxos := [output_row sample_output, output_row other_output]\<rparr>)
       = (None, sample_world\<lparr>account_utxos := [output_row sample_output, output_row other_output]\<rparr>)
   \<and> map utxo_key [output_row sample_output, output_row other_output] = [(''aa'', 0), (''aa'', 1)]
   \<and> map account_id [output_row sample_output, output_row other_output] = [''acc1'', ''acc2'']
   \<and> (\<exists>w1 w2.
         insertAccountOutputs [sample_output, other_output, other_output] sample_world
           = (None, w1)
       \<and> insertAccountOutputs [sample_output, other_output, other_output] w1 = (None, w2)
       \<and> account_utxos w2 = account_utxos w1
       \<and> unique_keys (account_utxos w1))"
proof -
  let ?outs = "[sample_output, other_output, other_output]"
  let ?w1 = "sample_world\<lparr>account_utxos := [output_row sample_output, output_row other_output]\<rparr>"
  have keys: "map utxo_key [output_row sample_output, output_row other_output]
                = [(''aa'', 0), (''aa'', 1)]"
    by (simp add: utxo_key_def output_row_def Hash_String_def sample_output_def other_output_def)
  have accs: "map account_id [output_row sample_output, output_row other_output]
                = [''acc1'', ''acc2'']"
    by (simp add: output_row_def sample_output_def other_output_def)
  have k0: "utxo_key (output_row sample_output) = (''aa'', 0)"
    and k1: "utxo_key (output_row other_output) = (''aa'', 1)"
    using keys by simp_all
  have u: "unique_keys (account_utxos sample_world)"
    by (simp add: unique_keys_def sample_world_def)
  have h: "db_healthy 2 sample_world"
    by (simp add: db_healthy_def sample_world_def)
  have f: "pg_faults sample_world = []" by (simp add: sample_world_def)
  have r: "account_utxos sample_world = [output_row sample_output]"
    by (simp add: sample_world_def)
  have a: "insertAccountOutputs ?outs sample_world = (None, ?w1)"
    by (simp add: insertAccountOutputs_def pg_Exec_stmt_def index_insert_def f r k0 k1)
  have b: "insertAccountOutputs ?outs ?w1 = (None, ?w1)"
    by (simp add: insertAccountOutputs_def pg_Exec_stmt_def index_insert_def f k0 k1)
  from insertAccountOutputs_idempotent [OF u, of ?outs] h
  have "\<exists>w1 w2.
         insertAccountOutputs ?outs sample_world = (None, w1)
       \<and> insertAccountOutputs ?outs w1 = (None, w2)
       \<and> account_utxos w2 = account_utxos w1
       \<and> unique_keys (account_utxos w1)"
    by blast
  with u h a b keys accs show ?thesis by (intro conjI)
qed

subsection \<open>Spend marks\<close>

text \<open>
  C7, as the code has it. When the connection answers both statements,
  \<^verbatim>\<open>markPrevSpentInPool(true, [tx])\<close> followed by \<^verbatim>\<open>markPrevSpentInPool(false, [tx])\<close>
  leaves every row referenced by a non-issuance input of \<open>tx\<close> with \<open>spent_in_pool\<close>
  false, whatever the flag was before, and leaves every other row and every other column
  as it was. The flag returns to its value before the first call for the rows that were
  not marked then.
\<close>

theorem markPrevSpentInPool_set_then_clear:
  assumes "db_healthy 2 w"
  shows "\<exists>w1 w2.
           markPrevSpentInPool True [t] w = (None, w1)
         \<and> markPrevSpentInPool False [t] w1 = (None, w2)
         \<and> account_utxos w2 =
             map (\<lambda>r. if utxo_key r \<in> set (prevouts [t])
                      then r\<lparr>spent_in_pool := False\<rparr> else r)
                 (account_utxos w)"
proof -
  let ?keys = "prevouts [t]"
  have h2: "db_healthy (Suc 1) w" using assms by (simp add: numeral_2_eq_2)
  from pg_Exec_healthy [OF h2, of "sql_mark_spent True ?keys"] obtain w1
    where e1: "pg_Exec (sql_mark_spent True ?keys) w = (None, w1)"
      and t1: "account_utxos w1 = sql_mark_spent True ?keys (account_utxos w)"
      and h1: "db_healthy 1 w1" by blast
  from h1 have h1': "db_healthy (Suc 0) w1" by simp
  from pg_Exec_healthy [OF h1', of "sql_mark_spent False ?keys"] obtain w2
    where e2: "pg_Exec (sql_mark_spent False ?keys) w1 = (None, w2)"
      and t2: "account_utxos w2 = sql_mark_spent False ?keys (account_utxos w1)" by blast
  have "sql_mark_spent False ?keys (sql_mark_spent True ?keys tbl) =
          map (\<lambda>r. if utxo_key r \<in> set ?keys then r\<lparr>spent_in_pool := False\<rparr> else r) tbl"
    for tbl
    by (induction tbl) (simp_all add: sql_mark_spent_def utxo_key_def)
  with e1 e2 t1 t2 show ?thesis
    by (simp add: markPrevSpentInPool_def)
qed

theorem markPrevSpentInPool_set_then_clear_witness:
  "db_healthy 2 sample_world
   \<and> (\<exists>w1 w2.
         markPrevSpentInPool True [sample_tx] sample_world = (None, w1)
       \<and> markPrevSpentInPool False [sample_tx] w1 = (None, w2)
       \<and> map spent_in_pool (account_utxos w2) = [False]
       \<and> map spent_in_pool (account_utxos sample_world) = [False])"
proof -
  have h: "db_healthy 2 sample_world"
    by (simp add: db_healthy_def sample_world_def)
  from markPrevSpentInPool_set_then_clear [OF h, of sample_tx] obtain w1 w2
    where a: "markPrevSpentInPool True [sample_tx] sample_world = (None, w1)"
      and b: "markPrevSpentInPool False [sample_tx] w1 = (None, w2)"
      and c: "account_utxos w2 =
             map (\<lambda>r. if utxo_key r \<in> set (prevouts [sample_tx])
                      then r\<lparr>spent_in_pool := False\<rparr> else r)
                 (account_utxos sample_world)"
    by blast
  have d: "map spent_in_pool (account_utxos w2) = [False]"
    unfolding c by (simp add: sample_world_def sample_output_def sample_tx_def output_row_def)
  have e: "map spent_in_pool (account_utxos sample_world) = [False]"
    by (simp add: sample_world_def sample_output_def output_row_def)
  show ?thesis
    by (intro conjI exI [of _ w1] exI [of _ w2]) (rule h a b d e)+
qed

text \<open>
  C7, as the specification words it (a round trip), fails for a row that was marked before
  the first call: the output \<open>(aa, 0)\<close> is reserved in \<open>marked_world\<close>, the transaction
  \<open>sample_tx\<close> spends it, and after the two calls the flag is false.
\<close>

theorem markPrevSpentInPool_roundtrip_counterexample:
  "utxo_key (hd (account_utxos marked_world)) \<in> set (prevouts [sample_tx])
   \<and> map spent_in_pool (account_utxos marked_world) = [True]
   \<and> fst (markPrevSpentInPool True [sample_tx] marked_world) = None
   \<and> fst (markPrevSpentInPool False [sample_tx]
            (snd (markPrevSpentInPool True [sample_tx] marked_world))) = None
   \<and> map spent_in_pool
        (account_utxos
          (snd (markPrevSpentInPool False [sample_tx]
                 (snd (markPrevSpentInPool True [sample_tx] marked_world))))) = [False]"
  by (simp add: markPrevSpentInPool_def pg_Exec_def sql_mark_spent_def prevouts_def
      utxo_key_def output_row_def Hash_String_def marked_world_def sample_output_def
      sample_tx_def)

subsection \<open>Block landing\<close>

text \<open>
  C8. For every block, every list of conflicting transactions and every behaviour of the
  connection, \<^verbatim>\<open>addBlock\<close> returns, with no error to return: it issues both statements,
  the release of the conflicts' spend marks also when the confirmation update failed;
  a statement that fails changes nothing and adds one line to the log; a statement that
  succeeds takes effect.
\<close>

theorem addBlock_swallows_errors:
  "chainlog (addBlock b conflicts w) =
     chainlog w
       @ (case nth_fault 0 w of Some e \<Rightarrow> [confirm_failure_entry b e] | None \<Rightarrow> [])
       @ (case nth_fault 1 w of Some e \<Rightarrow> [release_failure_entry b e] | None \<Rightarrow> [])
   \<and> pg_faults (addBlock b conflicts w) = drop 2 (pg_faults w)
   \<and> account_utxos (addBlock b conflicts w) =
       (if nth_fault 1 w = None then sql_mark_spent False (prevouts conflicts) else id)
         ((if nth_fault 0 w = None then sql_confirm (block_positions b) (Height b) else id)
            (account_utxos w))"
proof -
  obtain err w1 where e1: "pg_Exec (sql_confirm (block_positions b) (Height b)) w = (err, w1)"
    by (cases "pg_Exec (sql_confirm (block_positions b) (Height b)) w")
  have err: "err = nth_fault 0 w"
    and w1: "w1 = w\<lparr>account_utxos := (if nth_fault 0 w = None
                       then sql_confirm (block_positions b) (Height b) (account_utxos w)
                       else account_utxos w),
                     pg_faults := drop 1 (pg_faults w)\<rparr>"
    using e1 unfolding pg_Exec_cases [of _ w] by auto
  define w2 where
    "w2 = (case err of Some e \<Rightarrow> log_Write (confirm_failure_entry b e) w1 | None \<Rightarrow> w1)"
  have w2_faults: "pg_faults w2 = drop 1 (pg_faults w)"
    by (simp add: w2_def w1 log_Write_def split: option.splits)
  have w2_rows: "account_utxos w2 = account_utxos w1"
    by (simp add: w2_def log_Write_def split: option.splits)
  have w2_log: "chainlog w2 =
      chainlog w @ (case nth_fault 0 w of Some e \<Rightarrow> [confirm_failure_entry b e] | None \<Rightarrow> [])"
    by (simp add: w2_def w1 err log_Write_def split: option.splits)
  obtain err' w3 where e2: "markPrevSpentInPool False conflicts w2 = (err', w3)"
    by (cases "markPrevSpentInPool False conflicts w2")
  have f2: "nth_fault 0 w2 = nth_fault 1 w"
    using w2_faults by (rule nth_fault_Suc)
  have err': "err' = nth_fault 1 w"
    and w3: "w3 = w2\<lparr>account_utxos := (if nth_fault 1 w = None
                       then sql_mark_spent False (prevouts conflicts) (account_utxos w2)
                       else account_utxos w2),
                     pg_faults := drop 1 (pg_faults w2)\<rparr>"
    using e2 unfolding markPrevSpentInPool_def pg_Exec_cases [of _ w2] f2 by auto
  have res: "addBlock b conflicts w =
      (case err' of Some e \<Rightarrow> log_Write (release_failure_entry b e) w3 | None \<Rightarrow> w3)"
    using e2 [unfolded w2_def]
    by (simp add: addBlock_def e1 Let_def split: option.splits)
  have l: "chainlog (addBlock b conflicts w) =
      chainlog w2 @ (case nth_fault 1 w of Some e \<Rightarrow> [release_failure_entry b e] | None \<Rightarrow> [])"
    by (simp add: res err' w3 log_Write_def split: option.splits)
  have f: "pg_faults (addBlock b conflicts w) = drop 2 (pg_faults w)"
    by (simp add: res err' w3 w2_faults log_Write_def numeral_2_eq_2 split: option.splits)
  have r: "account_utxos (addBlock b conflicts w) =
       (if nth_fault 1 w = None then sql_mark_spent False (prevouts conflicts) else id)
         (account_utxos w2)"
    by (simp add: res err' w3 log_Write_def split: option.splits)
  have r1: "account_utxos w1 =
       (if nth_fault 0 w = None then sql_confirm (block_positions b) (Height b) else id)
         (account_utxos w)"
    by (simp add: w1)
  show ?thesis
    by (simp only: l f r w2_log w2_rows r1 append_assoc simp_thms)
qed

theorem addBlock_swallows_errors_witness:
  "chainlog (addBlock \<lparr>Height = 8, Transactions = [sample_tx]\<rparr> [sample_tx]
              (marked_world\<lparr>pg_faults := [Some connection_error, Some connection_error]\<rparr>))
     = [confirm_failure_entry \<lparr>Height = 8, Transactions = [sample_tx]\<rparr> connection_error,
        release_failure_entry \<lparr>Height = 8, Transactions = [sample_tx]\<rparr> connection_error]
   \<and> account_utxos (addBlock \<lparr>Height = 8, Transactions = [sample_tx]\<rparr> [sample_tx]
              (marked_world\<lparr>pg_faults := [Some connection_error, Some connection_error]\<rparr>))
     = account_utxos marked_world"
  using addBlock_swallows_errors
    [of "\<lparr>Height = 8, Transactions = [sample_tx]\<rparr>" "[sample_tx]"
        "marked_world\<lparr>pg_faults := [Some connection_error, Some connection_error]\<rparr>"]
  by (simp add: nth_fault_def marked_world_def)


section \<open>Finalizing: properties\<close>

text \<open>
  C3. For every template with more signature entries than its unsigned skeleton has inputs,
  and whatever the collaborators would answer, \<^verbatim>\<open>FinalizeTx\<close> fails with an error whose
  root is \<^verbatim>\<open>ErrBadTxTemplate\<close> and whose detail is "too many inputs in template", and
  has called nothing: neither the signature assembly nor the Ledger Engine.
\<close>

theorem FinalizeTx_too_many_inputs:
  assumes "length (Template_Inputs tmpl) > length (Inputs (Unsigned tmpl))"
  shows "\<exists>e. FinalizeTx env tmpl = (Inl e, [])
           \<and> Root e = asset_ErrBadTxTemplate
           \<and> Detail e = ''too many inputs in template''"
  using assms
  by (simp add: FinalizeTx_def WithDetail_def Wrap_def ErrBadTxTemplate_def errors_New_def
      Root_def Detail_def)

theorem FinalizeTx_too_many_inputs_witness:
  "length (Template_Inputs (sample_template\<lparr>Template_Inputs := [0, 1]\<rparr>))
     > length (Inputs (Unsigned (sample_template\<lparr>Template_Inputs := [0, 1]\<rparr>)))
   \<and> (\<exists>e. FinalizeTx sample_env (sample_template\<lparr>Template_Inputs := [0, 1]\<rparr>) = (Inl e, [])
         \<and> Root e = asset_ErrBadTxTemplate
         \<and> Detail e = ''too many inputs in template'')"
proof -
  have h: "length (Template_Inputs (sample_template\<lparr>Template_Inputs := [0, 1]\<rparr>))
     > length (Inputs (Unsigned (sample_template\<lparr>Template_Inputs := [0, 1]\<rparr>)))"
    by (simp add: sample_template_def sample_tx_def)
  from h FinalizeTx_too_many_inputs [OF h, of sample_env] show ?thesis by blast
qed

text \<open>
  C4. Let the local submission fail with \<open>err\<close>. If the root of \<open>err\<close> is the validation
  error of the Ledger Engine, \<^verbatim>\<open>publishTx\<close> returns an error whose root is
  \<^verbatim>\<open>ErrBadTxTemplate\<close> and whose detail is the detail of \<open>err\<close>. Otherwise it returns
  \<open>err\<close> wrapped with "add tx to blockchain", which keeps the root of \<open>err\<close> and so is
  not a bad-template error, the Ledger Engine having no access to the sentinel of this
  package. In both cases nothing is sent to the Generator.
\<close>

theorem publishTx_classifies_failure:
  assumes "AddTx env m = Some err"
  shows "(Root err = validation_ErrBadTx \<longrightarrow>
            (\<exists>e. fst (publishTx env m) = Some e
                \<and> Root e = asset_ErrBadTxTemplate \<and> Detail e = Detail err))
       \<and> (Root err \<noteq> validation_ErrBadTx \<longrightarrow>
            (\<exists>e. fst (publishTx env m) = Some e
                \<and> e = Wrap err ''add tx to blockchain''
                \<and> Root e = Root err
                \<and> (Root err \<noteq> asset_ErrBadTxTemplate \<longrightarrow> Root e \<noteq> asset_ErrBadTxTemplate)))
       \<and> snd (publishTx env m) = [AddTxCalled (Hash m)]"
  using assms
  by (simp add: publishTx_def WithDetail_def Wrap_def ErrBadTxTemplate_def errors_New_def
      Root_def Detail_def)

theorem publishTx_classifies_failure_witness:
  "AddTx (sample_env\<lparr>AddTx := (\<lambda>t. Some invalid_tx_error)\<rparr>) sample_tx = Some invalid_tx_error
   \<and> Root invalid_tx_error = validation_ErrBadTx
   \<and> (\<exists>e. fst (publishTx (sample_env\<lparr>AddTx := (\<lambda>t. Some invalid_tx_error)\<rparr>) sample_tx) = Some e
         \<and> Root e = asset_ErrBadTxTemplate \<and> Detail e = ''bad signature'')
   \<and> AddTx (sample_env\<lparr>AddTx := (\<lambda>t. Some connection_error)\<rparr>) sample_tx = Some connection_error
   \<and> Root connection_error \<noteq> validation_ErrBadTx
   \<and> Root connection_error \<noteq> asset_ErrBadTxTemplate
   \<and> (\<exists>e. fst (publishTx (sample_env\<lparr>AddTx := (\<lambda>t. Some connection_error)\<rparr>) sample_tx) = Some e
         \<and> Error e = ''add tx to blockchain: connection refused''
         \<and> Root e \<noteq> asset_ErrBadTxTemplate)
   \<and> snd (publishTx (sample_env\<lparr>AddTx := (\<lambda>t. Some connection_error)\<rparr>) sample_tx)
       = [AddTxCalled ''bb'']"
proof -
  let ?bad = "sample_env\<lparr>AddTx := (\<lambda>t. Some invalid_tx_error)\<rparr>"
  let ?down = "sample_env\<lparr>AddTx := (\<lambda>t. Some connection_error)\<rparr>"
  have a: "AddTx ?bad sample_tx = Some invalid_tx_error" by simp
  have b: "AddTx ?down sample_tx = Some connection_error" by simp
  have ra: "Root invalid_tx_error = validation_ErrBadTx"
    by (simp add: Root_def invalid_tx_error_def)
  have rb: "Root connection_error \<noteq> validation_ErrBadTx"
    "Root connection_error \<noteq> asset_ErrBadTxTemplate"
    by (simp_all add: Root_def connection_error_def errors_New_def)
  have d: "Detail invalid_tx_error = ''bad signature''"
    by (simp add: Detail_def invalid_tx_error_def)
  have w: "Error (Wrap connection_error ''add tx to blockchain'')
             = ''add tx to blockchain: connection refused''"
    by (simp add: Error_def Wrap_def connection_error_def errors_New_def)
  have h: "Hash sample_tx = ''bb''" by (simp add: sample_tx_def)
  from publishTx_classifies_failure [OF a] publishTx_classifies_failure [OF b]
  show ?thesis using ra rb d w h by auto
qed

text \<open>
  C5. Every call of \<^verbatim>\<open>publishTx\<close> starts with the local submission. The transaction is
  sent to the Generator exactly when the local submission succeeded and the Generator
  address is set and not empty. When that relay fails, \<^verbatim>\<open>publishTx\<close> returns the relay
  error, wrapped, and has done nothing after logging it: the local submission stands.
\<close>

theorem publishTx_relay:
  "(\<exists>rest. snd (publishTx env m) = AddTxCalled (Hash m) # rest)
   \<and> ((\<exists>h. SubmitCalled h \<in> set (snd (publishTx env m))) \<longleftrightarrow>
        AddTx env m = None \<and> (\<exists>addr. Generator env = Some addr \<and> addr \<noteq> []))
   \<and> (AddTx env m = None \<and> (\<exists>addr. Generator env = Some addr \<and> addr \<noteq> [])
        \<and> Submit env m = Some e \<longrightarrow>
        publishTx env m =
          (Some (Wrap e ''generator transaction notice''),
           [AddTxCalled (Hash m), SubmitCalled (Hash m),
            Logged (Wrap e ''generator transaction notice'')]))"
  by (auto simp: publishTx_def Let_def split: option.splits)

theorem publishTx_relay_witness:
  "AddTx (sample_env\<lparr>Generator := Some ''generator:1999'', Submit := (\<lambda>t. Some connection_error)\<rparr>)
      sample_tx = None
   \<and> Submit (sample_env\<lparr>Generator := Some ''generator:1999'', Submit := (\<lambda>t. Some connection_error)\<rparr>)
      sample_tx = Some connection_error
   \<and> publishTx (sample_env\<lparr>Generator := Some ''generator:1999'',
                            Submit := (\<lambda>t. Some connection_error)\<rparr>) sample_tx
      = (Some (Wrap connection_error ''generator transaction notice''),
         [AddTxCalled ''bb'', SubmitCalled ''bb'',
          Logged (Wrap connection_error ''generator transaction notice'')])
   \<and> snd (publishTx (sample_env\<lparr>Generator := Some []\<rparr>) sample_tx) = [AddTxCalled ''bb'']
   \<and> snd (publishTx sample_env sample_tx) = [AddTxCalled ''bb'']"
proof -
  let ?env = "sample_env\<lparr>Generator := Some ''generator:1999'',
                         Submit := (\<lambda>t. Some connection_error)\<rparr>"
  have a: "AddTx ?env sample_tx = None" by (simp add: sample_env_def)
  have g: "\<exists>addr. Generator ?env = Some addr \<and> addr \<noteq> []" by simp
  have s: "Submit ?env sample_tx = Some connection_error" by simp
  have h: "Hash sample_tx = ''bb''" by (simp add: sample_tx_def)
  have off1: "snd (publishTx (sample_env\<lparr>Generator := Some []\<rparr>) sample_tx) = [AddTxCalled ''bb'']"
    by (simp add: publishTx_def sample_env_def h)
  have off2: "snd (publishTx sample_env sample_tx) = [AddTxCalled ''bb'']"
    by (simp add: publishTx_def sample_env_def h)
  from publishTx_relay [of ?env sample_tx connection_error] a g s
  have "publishTx ?env sample_tx =
          (Some (Wrap connection_error ''generator transaction notice''),
           [AddTxCalled (Hash sample_tx), SubmitCalled (Hash sample_tx),
            Logged (Wrap connection_error ''generator transaction notice'')])"
    by blast
  with a s off1 off2 show ?thesis by (simp add: h)
qed


section \<open>Waiting for confirmation: properties\<close>

lemma awaited_append: "awaited (xs @ ys) = awaited xs @ awaited ys"
  by (induction xs rule: awaited.induct) simp_all



lemma waitLoop_pending:
  "list_all (pending t) pend \<Longrightarrow>
     waitLoop t h (pend @ evs) =
       (fst (waitLoop t (h + word_of_nat (length pend)) evs),
        polls t h (length pend) @ snd (waitLoop t (h + word_of_nat (length pend)) evs))"
proof (induction pend arbitrary: h)
  case Nil
  show ?case by simp
next
  case (Cons ev pend)
  from Cons.prems have p: "pending t ev" and ps: "list_all (pending t) pend" by simp_all
  from p obtain poolTxs bcTxs where ev: "ev = Landed (Inr (poolTxs, bcTxs))"
    and bc: "bcTxs (Hash t) = None" and pool: "poolTxs (Hash t) \<noteq> None"
    by (cases "(t, ev)" rule: pending.cases) auto
  have h: "h + 1 + word_of_nat (length pend) = h + word_of_nat (length (ev # pend))"
    by (simp add: add.assoc add.commute)
  have step: "waitLoop t h ((ev # pend) @ evs) =
      (fst (waitLoop t (h + 1) (pend @ evs)),
       WaitForBlockCalled (h + 1) # GetTxsCalled (Hash t) # snd (waitLoop t (h + 1) (pend @ evs)))"
    using pool by (auto simp: ev bc split: prod.splits)
  show ?case
    unfolding step Cons.IH [OF ps, of "h + 1"] h by simp
qed

lemma FinalizeTx_awaits_nothing: "awaited (snd (FinalizeTx env tmpl)) = []"
  by (auto simp: FinalizeTx_def publishTx_def Let_def split: sum.splits option.splits prod.splits)

lemma FinalizeTxWait_loop:
  assumes "LatestBlock env = Inr b" and "FinalizeTx env tmpl = (Inr t, effs)"
  shows "FinalizeTxWait env tmpl =
           (fst (waitLoop t (captured_height b) (events env)),
            LatestBlockCalled # effs @ snd (waitLoop t (captured_height b) (events env)))"
  by (simp add: FinalizeTxWait_def assms split: prod.splits)

text \<open>With no event but pending blocks, the call does not return.\<close>

lemma waitLoop_all_pending:
  "list_all (pending t) evs \<Longrightarrow> fst (waitLoop t h evs) = None"
  using waitLoop_pending [of t evs h "[]"] by simp



lemma waitLoop_undecided:
  "list_all (undecided t) pre \<Longrightarrow>
     waitLoop t h (pre @ evs) =
       (fst (waitLoop t (h + word_of_nat (length pre)) evs),
        polls t h (length pre) @ snd (waitLoop t (h + word_of_nat (length pre)) evs))"
proof (induction pre arbitrary: h)
  case Nil
  show ?case by simp
next
  case (Cons ev pre)
  from Cons.prems have u: "undecided t ev" and us: "list_all (undecided t) pre" by simp_all
  have h: "h + 1 + word_of_nat (length pre) = h + word_of_nat (length (ev # pre))"
    by (simp add: add.assoc add.commute)
  have step: "waitLoop t h ((ev # pre) @ evs) =
      (fst (waitLoop t (h + 1) (pre @ evs)),
       WaitForBlockCalled (h + 1) # GetTxsCalled (Hash t) # snd (waitLoop t (h + 1) (pre @ evs)))"
    using u by (cases "(t, ev)" rule: undecided.cases) (auto split: prod.splits)
  show ?case
    unfolding step Cons.IH [OF us, of "h + 1"] h by simp
qed

text \<open>
  C6, as the code has it. Let the latest block be captured and the transaction be
  finalized. If every \<^verbatim>\<open>select\<close> so far took a landed block that left the transaction
  undecided, and the \<^verbatim>\<open>select\<close> then receives the completion of the caller's context,
  \<^verbatim>\<open>FinalizeTxWait\<close> returns \<^verbatim>\<open>ctx.Err()\<close> as it is, which is not \<^verbatim>\<open>ErrRejected\<close>
  and has another root.
\<close>

theorem FinalizeTxWait_context_done:
  assumes "LatestBlock env = Inr b"
    and "FinalizeTx env tmpl = (Inr t, effs)"
    and "events env = pre @ CtxDone ce # rest"
    and "list_all (undecided t) pre"
  shows "fst (FinalizeTxWait env tmpl) = Some (Inl (ctx_Err ce))
       \<and> ctx_Err ce \<noteq> ErrRejected
       \<and> Root (ctx_Err ce) \<noteq> Root ErrRejected"
proof -
  have "fst (waitLoop t (captured_height b) (events env)) = Some (Inl (ctx_Err ce))"
    unfolding assms(3) waitLoop_undecided [OF assms(4)] by simp
  then have "fst (FinalizeTxWait env tmpl) = Some (Inl (ctx_Err ce))"
    unfolding FinalizeTxWait_loop [OF assms(1,2)] by simp
  moreover have "Root (ctx_Err ce) \<noteq> Root ErrRejected"
    by (cases ce) (simp_all add: Root_def ErrRejected_def errors_New_def)
  ultimately show ?thesis by auto
qed

text \<open>
  A block lands and leaves the transaction in the pool; at the next \<^verbatim>\<open>select\<close> the
  deadline has passed and a block is ready too, the block is taken and leaves the
  transaction in the pool again; the third \<^verbatim>\<open>select\<close> receives the context.
\<close>

theorem FinalizeTxWait_context_done_witness:
  "LatestBlock (sample_env\<lparr>events := [Landed (Inr ([''bb'' \<mapsto> sample_tx], Map.empty)),
                                       RacedLanded DeadlineExceeded
                                         (Inr ([''bb'' \<mapsto> sample_tx], Map.empty)),
                                       CtxDone DeadlineExceeded]\<rparr>)
     = Inr (Some \<lparr>Height = 7, Transactions = []\<rparr>)
   \<and> list_all (undecided sample_tx)
        [Landed (Inr ([''bb'' \<mapsto> sample_tx], Map.empty)),
         RacedLanded DeadlineExceeded (Inr ([''bb'' \<mapsto> sample_tx], Map.empty))]
   \<and> fst (FinalizeTxWait
            (sample_env\<lparr>events := [Landed (Inr ([''bb'' \<mapsto> sample_tx], Map.empty)),
                                   RacedLanded DeadlineExceeded
                                     (Inr ([''bb'' \<mapsto> sample_tx], Map.empty)),
                                   CtxDone DeadlineExceeded]\<rparr>) sample_template)
       = Some (Inl (ctx_Err DeadlineExceeded))
   \<and> Root (ctx_Err DeadlineExceeded) = context_DeadlineExceeded"
proof -
  let ?pre = "[Landed (Inr ([''bb'' \<mapsto> sample_tx], Map.empty)),
               RacedLanded DeadlineExceeded (Inr ([''bb'' \<mapsto> sample_tx], Map.empty))]"
  let ?env = "sample_env\<lparr>events := ?pre @ [CtxDone DeadlineExceeded]\<rparr>"
  have h: "Hash sample_tx = ''bb''" by (simp add: sample_tx_def)
  have a: "LatestBlock ?env = Inr (Some \<lparr>Height = 7, Transactions = []\<rparr>)"
    by (simp add: sample_env_def)
  have b: "FinalizeTx ?env sample_template
       = (Inr sample_tx, [AssembleSignaturesCalled, AddTxCalled ''bb''])"
    by (simp add: FinalizeTx_def publishTx_def sample_env_def sample_template_def sample_tx_def)
  have c: "events ?env = ?pre @ CtxDone DeadlineExceeded # []" by simp
  have d: "list_all (undecided sample_tx) ?pre" by (simp add: h)
  have r: "Root (ctx_Err DeadlineExceeded) = context_DeadlineExceeded"
    by (simp add: Root_def errors_New_def)
  from FinalizeTxWait_context_done [OF a b c d] a d r show ?thesis by simp
qed

text \<open>
  C6, as the specification words it (whenever the context completes before a decisive
  outcome is observed), fails when the completed context and the awaited block are ready at
  the same \<^verbatim>\<open>select\<close>: here the deadline has passed at the first \<^verbatim>\<open>select\<close>, before
  any outcome was observed, the \<^verbatim>\<open>select\<close> takes the block, \<^verbatim>\<open>GetTxs\<close> finds the
  transaction neither in the pool nor in the chain, and the call returns
  \<^verbatim>\<open>ErrRejected\<close>, not the error of the context.
\<close>

theorem FinalizeTxWait_context_race_counterexample:
  "map ctx_completed
     (events (sample_env\<lparr>events := [RacedLanded DeadlineExceeded (Inr (Map.empty, Map.empty))]\<rparr>))
     = [Some DeadlineExceeded]
   \<and> fst (FinalizeTx
            (sample_env\<lparr>events := [RacedLanded DeadlineExceeded (Inr (Map.empty, Map.empty))]\<rparr>)
            sample_template) = Inr sample_tx
   \<and> fst (FinalizeTxWait
            (sample_env\<lparr>events := [RacedLanded DeadlineExceeded (Inr (Map.empty, Map.empty))]\<rparr>)
            sample_template) = Some (Inl ErrRejected)
   \<and> ErrRejected \<noteq> ctx_Err DeadlineExceeded"
  by (simp add: FinalizeTxWait_def FinalizeTx_def publishTx_def captured_height_def
      sample_env_def sample_template_def sample_tx_def ErrRejected_def errors_New_def)

text \<open>
  C10. When the Ledger Engine has no latest block and reports no error, \<^verbatim>\<open>FinalizeTxWait\<close>
  goes on to finalize and then runs its loop from height 0: the first height it waits for
  is 1.
\<close>

theorem FinalizeTxWait_nil_latest_block:
  assumes "LatestBlock env = Inr None"
    and "FinalizeTx env tmpl = (Inr t, effs)"
  shows "FinalizeTxWait env tmpl =
           (fst (waitLoop t 0 (events env)),
            LatestBlockCalled # effs @ snd (waitLoop t 0 (events env)))
       \<and> (\<exists>later. awaited (snd (FinalizeTxWait env tmpl)) = 1 # later)"
proof -
  have res: "FinalizeTxWait env tmpl =
           (fst (waitLoop t 0 (events env)),
            LatestBlockCalled # effs @ snd (waitLoop t 0 (events env)))"
    using FinalizeTxWait_loop [OF assms] by (simp add: captured_height_def)
  have aw: "awaited effs = []"
    using FinalizeTx_awaits_nothing [of env tmpl] by (simp add: assms(2))
  have first: "\<exists>later. awaited (snd (waitLoop t 0 evs)) = 1 # later" for evs
    by (cases "(t, 0 :: 64 word, evs)" rule: waitLoop.cases) (auto split: prod.splits)
  show ?thesis
    using first [of "events env"] by (simp add: res awaited_append aw)
qed

theorem FinalizeTxWait_nil_latest_block_witness:
  "LatestBlock (sample_env\<lparr>LatestBlock := Inr None\<rparr>) = Inr None
   \<and> fst (FinalizeTxWait (sample_env\<lparr>LatestBlock := Inr None\<rparr>) sample_template)
       = Some (Inr sample_tx)
   \<and> awaited (snd (FinalizeTxWait (sample_env\<lparr>LatestBlock := Inr None\<rparr>) sample_template))
       = [1, 2]"
proof -
  let ?env = "sample_env\<lparr>LatestBlock := Inr None\<rparr>"
  have h: "Hash sample_tx = ''bb''" by (simp add: sample_tx_def)
  have a: "LatestBlock ?env = Inr None" by simp
  have b: "FinalizeTx ?env sample_template
       = (Inr sample_tx, [AssembleSignaturesCalled, AddTxCalled ''bb''])"
    by (simp add: FinalizeTx_def publishTx_def sample_env_def sample_template_def sample_tx_def)
  have l: "waitLoop sample_tx 0 (events ?env) =
      (Some (Inr sample_tx),
       [WaitForBlockCalled 1, GetTxsCalled ''bb'', WaitForBlockCalled 2, GetTxsCalled ''bb''])"
    by (simp add: sample_env_def h)
  from FinalizeTxWait_nil_latest_block [OF a b] have
    "FinalizeTxWait ?env sample_template =
       (fst (waitLoop sample_tx 0 (events ?env)),
        LatestBlockCalled # [AssembleSignaturesCalled, AddTxCalled ''bb'']
          @ snd (waitLoop sample_tx 0 (events ?env)))"
    by blast
  then show ?thesis unfolding l by simp
qed

end
